theory Spec2Isabelle
  imports Main
begin

section \<open>The Coinbase order book gateway (class \<open>OrderBook\<close>)\<close>

text \<open>
  The class \<open>OrderBook\<close> keeps a connection state, a failure counter, a socket, a queue of
  messages that arrived before the snapshot and the book itself. Every method is modelled as
  a function from the object's fields to an optional exception and the fields afterwards:
  a JavaScript \<open>throw\<close> leaves the assignments made before it in place, so the state is
  returned in both cases. Everything a method does to the outside (events emitted to
  subscribers, socket calls, timers, HTTP requests, log lines) is appended, in program
  order, to the field \<open>trace\<close>. Listeners registered on the object are code of the
  subscribers: they are taken to return normally and not to call back into the object.
\<close>

subsection \<open>Data\<close>

text \<open>
  \<open>enum STATES { closed, open, syncing, processing, error }\<close>; the constructors are
  capitalised because \<open>open\<close> and \<open>closed\<close> are names of the HOL library.
\<close>

datatype STATES = Closed | Open | Syncing | Processing | Error

text \<open>A JSON scalar, as \<open>JSON.parse\<close> returns it for a price or a size.\<close>

datatype jsvalue = Num int | Str string

text \<open>\<open>{ 'price': array[0], 'size': array[1], 'id': array[2] }\<close>\<close>

record CoinbaseEntry =
  e_price :: jsvalue
  e_size :: jsvalue
  e_id :: string

text \<open>
  What a \<open>sequence\<close> field can hold. The code never checks it: \<open>JSON.parse\<close> output is
  stored and compared as it comes. \<open>Undefined\<close> is a missing field, \<open>Null\<close> the value
  \<open>null\<close> (also what \<open>clearBook\<close> assigns), \<open>Number n\<close> a JavaScript number whose value is
  the integer \<open>n\<close>. JavaScript numbers are IEEE 754 doubles, so only integers that a double
  represents occur: every integer of magnitude up to \<open>2^53\<close>, and beyond that the even
  ones, then the multiples of 4, and so on. Sequences that are strings, arrays or objects,
  or numbers with a fractional part, are not modelled.
\<close>

datatype seqval = Undefined | Null | Boolean bool | Number int

text \<open>\<open>{ 'sequence': null, 'bids': {}, 'asks': {} }\<close>\<close>

record CoinbaseBookStorage =
  sequence :: seqval
  bids :: "string \<rightharpoonup> CoinbaseEntry"
  asks :: "string \<rightharpoonup> CoinbaseEntry"

text \<open>
  A parsed feed message, a JSON object: the two fields the class reads
  (\<open>message.sequence\<close>, which may be missing, and \<open>message.type\<close>, a string) and the rest
  of its content, which the class only passes on.
\<close>

record message =
  m_sequence :: seqval
  m_type :: string
  m_rest :: string

text \<open>
  The second argument of \<open>processMessage(message, t: Date)\<close>. The live path passes a
  \<open>Date\<close> (milliseconds); \<open>_.forEach\<close> passes the array index of the element.
\<close>

datatype time_arg = Date int | Index nat

text \<open>
  Modelled from the spec: the class \<open>Models.Timestamped\<close> of \<open>common/models\<close>, which is
  not among the source files. The spec describes it as
  \<open>TimestampedEvent<T>: { payload: T, receivedAt: timestamp }\<close>; the constructor call
  \<open>new Models.Timestamped(message, t)\<close> stores its two arguments.
\<close>

record Timestamped =
  ts_data :: message
  ts_time :: time_arg

datatype loglevel = Info | Warn | Err

datatype effect =
    Emit_statechange "STATES option" STATES
  | Emit_ignored message
  | Emit string Timestamped
  | Socket_new nat string
  | Socket_close nat
  | Socket_send_subscribe nat string
  | SetTimeout_connect nat
  | Request_get string
  | Log loglevel string

text \<open>
  \<open>Unhandled_error\<close> is what \<open>EventEmitter.emit\<close> throws for an event named \<open>error\<close> that has
  no listener.
\<close>

datatype exn = GaveUp | NotConnected | TypeError | Unhandled_error

text \<open>
  The fields of the class. \<open>state\<close> and \<open>socket\<close> are \<open>undefined\<close> (\<open>None\<close>) until first
  assigned. \<open>sockets_made\<close> numbers the sockets created by \<open>new WebSocket\<close>, so that two
  sockets can be told apart in the trace. \<open>listeners\<close> holds the event names for which
  a listener has been registered with the inherited \<open>on\<close>.
\<close>

record OrderBook =
  state :: "STATES option"
  book :: CoinbaseBookStorage
  queue :: "message list"
  socket :: "nat option"
  failCount :: nat
  productID :: string
  websocketURI :: string
  restURI :: string
  listeners :: "string list"
  sockets_made :: nat
  trace :: "effect list"

type_synonym result = "exn option \<times> OrderBook"

definition perform :: "effect \<Rightarrow> OrderBook \<Rightarrow> OrderBook" where
  "perform eff ob = ob\<lparr>trace := trace ob @ [eff]\<rparr>"

text \<open>
  \<open>this.emit(name, payload)\<close> of \<open>EventEmitter\<close>: the listeners of \<open>name\<close> are called, except
  that an event named \<open>error\<close> without a listener makes \<open>emit\<close> throw. \<open>on\<close> registers a
  listener.
\<close>

definition emit :: "string \<Rightarrow> effect \<Rightarrow> OrderBook \<Rightarrow> exn option \<times> OrderBook" where
  "emit name eff ob =
     (if name = ''error'' \<and> ''error'' \<notin> set (listeners ob) then (Some Unhandled_error, ob)
      else (None, perform eff ob))"

definition on :: "string \<Rightarrow> OrderBook \<Rightarrow> OrderBook" where
  "on name ob = ob\<lparr>listeners := listeners ob @ [name]\<rparr>"

text \<open>Sequencing of statements: an exception skips what follows.\<close>

definition then_do :: "result \<Rightarrow> (OrderBook \<Rightarrow> result) \<Rightarrow> result" where
  "then_do r f = (case r of (None, ob) \<Rightarrow> f ob | (Some e, ob) \<Rightarrow> (Some e, ob))"

subsection \<open>\<open>clearBook\<close>, \<open>connect\<close>, \<open>disconnect\<close>\<close>

definition clearBook :: "OrderBook \<Rightarrow> OrderBook" where
  "clearBook ob =
     ob\<lparr>queue := [],
        book := \<lparr>sequence = Null, bids = Map.empty, asks = Map.empty\<rparr>\<rparr>"

definition connect :: "OrderBook \<Rightarrow> OrderBook" where
  "connect ob =
     (let ob1 = perform (Log Info ''Starting connect'') ob;
          ob2 = (case socket ob1 of None \<Rightarrow> ob1 | Some k \<Rightarrow> perform (Socket_close k) ob1);
          ob3 = clearBook ob2;
          k' = sockets_made ob3
      in perform (Socket_new k' (websocketURI ob3))
           (ob3\<lparr>socket := Some k', sockets_made := Suc k'\<rparr>))"

subsection \<open>\<open>changeState\<close>\<close>

definition changeState :: "STATES \<Rightarrow> OrderBook \<Rightarrow> result" where
  "changeState st ob =
     (let oldState = state ob;
          ob1 = ob\<lparr>state := Some st\<rparr>
      in if failCount ob1 > 3 then (Some GaveUp, ob1)
         else then_do
           (if st = Error \<or> st = Closed then
              (let ob2 = ob1\<lparr>failCount := failCount ob1 + 1\<rparr>
               in case socket ob2 of
                    None \<Rightarrow> (Some TypeError, ob2)
                  | Some k \<Rightarrow>
                      (None, perform (SetTimeout_connect 5000) (perform (Socket_close k) ob2)))
            else if st = Processing then (None, ob1\<lparr>failCount := 0\<rparr>)
            else (None, ob1))
           (\<lambda>ob3. emit ''statechange'' (Emit_statechange oldState st)
                    (perform (Log Info ''statechange: '') ob3)))"

definition onClose :: "OrderBook \<Rightarrow> result" where
  "onClose ob = changeState Closed ob"

definition disconnect :: "OrderBook \<Rightarrow> result" where
  "disconnect ob =
     (case socket ob of
        None \<Rightarrow> (Some NotConnected, ob)
      | Some k \<Rightarrow> onClose (perform (Socket_close k) ob))"

subsection \<open>\<open>processMessage\<close>, \<open>onMessage\<close>\<close>

text \<open>
  The operators of \<open>processMessage\<close> on these values. \<open>ToNumber\<close> gives \<open>NaN\<close> (\<open>None\<close>) for
  \<open>undefined\<close>, 0 for \<open>null\<close>, 0 or 1 for a boolean.
\<close>

definition to_number :: "seqval \<Rightarrow> int option" where
  "to_number v =
     (case v of
        Undefined \<Rightarrow> None
      | Null \<Rightarrow> Some 0
      | Boolean b \<Rightarrow> Some (if b then 1 else 0)
      | Number n \<Rightarrow> Some n)"

text \<open>\<open>a <= b\<close>: both sides are converted to numbers, and a comparison with \<open>NaN\<close> is false.\<close>

definition js_le :: "seqval \<Rightarrow> seqval \<Rightarrow> bool" where
  "js_le a b =
     (case to_number a of
        None \<Rightarrow> False
      | Some x \<Rightarrow> (case to_number b of None \<Rightarrow> False | Some y \<Rightarrow> x \<le> y))"

text \<open>
  \<open>n + 1\<close> on a double of integer value \<open>n\<close>, rounded to the nearest double, ties to the
  even significand. Up to \<open>2^53\<close> in magnitude the sum is exact. From \<open>2^53\<close> to \<open>2^54\<close> the
  doubles are the even integers and \<open>n + 1\<close> lies half way between \<open>n\<close> and \<open>n + 2\<close>: the
  one that is a multiple of 4 has the even significand. Beyond, \<open>n\<close> itself is nearest.
\<close>

definition js_add_one :: "int \<Rightarrow> int" where
  "js_add_one n =
     (if - 9007199254740992 \<le> n \<and> n < 9007199254740992 then n + 1
      else if (9007199254740992 \<le> n \<and> n < 18014398509481984)
              \<or> (- 18014398509481984 < n \<and> n < - 9007199254740992)
           then (if n mod 4 = 0 then n else n + 2)
      else n)"

text \<open>\<open>v + 1\<close>: \<open>NaN\<close> (\<open>None\<close>) for \<open>undefined\<close>.\<close>

definition js_plus_one :: "seqval \<Rightarrow> int option" where
  "js_plus_one v = map_option js_add_one (to_number v)"

text \<open>
  \<open>a != x\<close> for a number \<open>x\<close>: \<open>undefined\<close> and \<open>null\<close> equal no number, a boolean is
  converted, and nothing equals \<open>NaN\<close>.
\<close>

definition js_ne :: "seqval \<Rightarrow> int option \<Rightarrow> bool" where
  "js_ne a x =
     (case x of
        None \<Rightarrow> True
      | Some y \<Rightarrow>
          (case a of
             Undefined \<Rightarrow> True
           | Null \<Rightarrow> True
           | Boolean b \<Rightarrow> (if b then 1 else 0) \<noteq> y
           | Number n \<Rightarrow> n \<noteq> y))"

text \<open>\<open>Number.isSafeInteger\<close>: on these integers arithmetic on doubles is exact.\<close>

definition safe_integer :: "int \<Rightarrow> bool" where
  "safe_integer n = (- 9007199254740992 < n \<and> n < 9007199254740992)"

definition is_number :: "seqval \<Rightarrow> bool" where
  "is_number v = (case v of Number n \<Rightarrow> True | _ \<Rightarrow> False)"

definition processMessage :: "message \<Rightarrow> time_arg \<Rightarrow> OrderBook \<Rightarrow> result" where
  "processMessage msg t ob =
     (if js_le (m_sequence msg) (sequence (book ob)) then
        emit ''ignored'' (Emit_ignored msg) ob
      else then_do
        (if js_ne (m_sequence msg) (js_plus_one (sequence (book ob))) then
           then_do (changeState Error ob)
             (\<lambda>ob1. (None, perform (Log Warn ''Received message out of order'') ob1))
         else (None, ob))
        (\<lambda>ob2. emit (m_type msg) (Emit (m_type msg) \<lparr>ts_data = msg, ts_time = t\<rparr>)
                 (ob2\<lparr>book := (book ob2)\<lparr>sequence := m_sequence msg\<rparr>\<rparr>)))"

text \<open>
  \<open>now\<close> is what \<open>this.timeProvider.utcNow()\<close> returns and \<open>data\<close> what
  \<open>JSON.parse(datastr)\<close> returns.
\<close>

definition onMessage :: "int \<Rightarrow> message \<Rightarrow> OrderBook \<Rightarrow> result" where
  "onMessage now data ob =
     (let t = Date now
      in if state ob \<noteq> Some Processing then (None, ob\<lparr>queue := queue ob @ [data]\<rparr>)
         else processMessage data t ob)"

subsection \<open>\<open>onOpen\<close>, \<open>sync\<close>, \<open>loadSnapshot\<close>\<close>

text \<open>
  \<open>loadSnapshot\<close> only issues the HTTP request; the work is done in the callback handed
  to \<open>request\<close>, which runs when the response arrives (\<open>loadSnapshot_callback\<close> below).
\<close>

definition loadSnapshot :: "OrderBook \<Rightarrow> result" where
  "loadSnapshot ob =
     (None, perform (Request_get (restURI ob @ ''/products/'' @ productID ob @ ''/book?level=3'')) ob)"

definition sync :: "OrderBook \<Rightarrow> result" where
  "sync ob =
     then_do (changeState Syncing ob)
       (\<lambda>ob1. case socket ob1 of
                 None \<Rightarrow> (Some TypeError, ob1)
               | Some k \<Rightarrow> loadSnapshot (perform (Socket_send_subscribe k (productID ob1)) ob1))"

definition onOpen :: "OrderBook \<Rightarrow> result" where
  "onOpen ob = then_do (changeState Open ob) sync"

text \<open>
  The snapshot as \<open>JSON.parse(body)\<close> returns it. A raw level is the array
  \<open>[price, size, orderID]\<close>; \<open>data.bids\<close> and \<open>data.asks\<close> may be absent (the loops test
  \<open>data.bids && ...\<close>).
\<close>

type_synonym level = "jsvalue \<times> jsvalue \<times> string"

record snapshot =
  s_sequence :: seqval
  s_bids :: "level list option"
  s_asks :: "level list option"

definition convertSnapshotArray :: "level \<Rightarrow> CoinbaseEntry" where
  "convertSnapshotArray array =
     (case array of (a0, a1, a2) \<Rightarrow> \<lparr>e_price = a0, e_size = a1, e_id = a2\<rparr>)"

text \<open>
  The two \<open>for\<close> loops of \<open>load\<close>: \<open>side[entry.id] = entry\<close> for each level in turn.
\<close>

fun insert_levels ::
  "level list \<Rightarrow> (string \<rightharpoonup> CoinbaseEntry) \<Rightarrow> (string \<rightharpoonup> CoinbaseEntry)" where
  "insert_levels [] side = side"
| "insert_levels (a # as) side =
     (let entry = convertSnapshotArray a in insert_levels as (side(e_id entry \<mapsto> entry)))"

definition levels_of :: "level list option \<Rightarrow> level list" where
  "levels_of v = (case v of None \<Rightarrow> [] | Some ls \<Rightarrow> ls)"

text \<open>
  \<open>_.forEach(this.queue, this.processMessage.bind(this))\<close>: lodash calls the iteratee with
  \<open>(value, index, collection)\<close>, so \<open>processMessage\<close> receives the element as \<open>message\<close> and
  its index as \<open>t\<close>. An exception ends the loop.
\<close>

fun replay :: "message list \<Rightarrow> nat \<Rightarrow> OrderBook \<Rightarrow> result" where
  "replay [] i ob = (None, ob)"
| "replay (m # ms) i ob = then_do (processMessage m (Index i) ob) (replay ms (Suc i))"

text \<open>
  What \<open>this\<close> denotes inside a \<open>function\<close> expression depends on how the function is
  called, not on where it is written: a method call \<open>obj.f()\<close> or a function fixed with
  \<open>.bind(obj)\<close> runs with \<open>this = obj\<close>; a plain call \<open>f()\<close> does not.
\<close>

datatype receiver = This_OrderBook | This_other

text \<open>
  The local function \<open>load\<close> of \<open>loadSnapshot\<close>, written \<open>function(data) { ... }\<close>. Every
  path through it starts by reading \<open>this.book\<close> (in the first loop body, in the second,
  or in \<open>this.book.sequence = data.sequence\<close>), which raises a \<open>TypeError\<close> when \<open>this\<close> is
  not the order book, before anything has been changed: in a plain call \<open>this\<close> is
  \<open>undefined\<close> in strict code and the global object otherwise, and neither has a \<open>book\<close>.
\<close>

definition load :: "receiver \<Rightarrow> snapshot \<Rightarrow> OrderBook \<Rightarrow> result" where
  "load this data ob =
     (case this of
        This_other \<Rightarrow> (Some TypeError, ob)
      | This_OrderBook \<Rightarrow>
          (let ob1 = ob\<lparr>book := (book ob)\<lparr>bids := insert_levels (levels_of (s_bids data)) (bids (book ob))\<rparr>\<rparr>;
               ob2 = ob1\<lparr>book := (book ob1)\<lparr>asks := insert_levels (levels_of (s_asks data)) (asks (book ob1))\<rparr>\<rparr>;
               ob3 = ob2\<lparr>book := (book ob2)\<lparr>sequence := s_sequence data\<rparr>\<rparr>
           in then_do (changeState Processing ob3)
                (\<lambda>ob4. then_do (replay (queue ob4) 0 ob4)
                   (\<lambda>ob5. (None, ob5\<lparr>queue := []\<rparr>)))))"

text \<open>
  The callback \<open>function(err, response, body) { ... }\<close> given to \<open>request\<close>. It is a
  \<open>function\<close> expression too, so its \<open>this\<close> is chosen by the \<open>request\<close> library, which is
  not part of the sources: it is the parameter \<open>this\<close>. In the success branch the
  callback calls \<open>load(JSON.parse(body))\<close>, a plain call.
\<close>

datatype response = Transport_error | Http_response nat snapshot

definition loadSnapshot_callback :: "receiver \<Rightarrow> response \<Rightarrow> OrderBook \<Rightarrow> result" where
  "loadSnapshot_callback this r ob =
     (case r of
        Transport_error \<Rightarrow>
          (case this of
             This_other \<Rightarrow> (Some TypeError, ob)
           | This_OrderBook \<Rightarrow>
               then_do (changeState Error ob)
                 (\<lambda>ob1. (None, perform (Log Err ''error: Failed to load snapshot'') ob1)))
      | Http_response statusCode data \<Rightarrow>
          if statusCode \<noteq> 200 then
            (case this of
               This_other \<Rightarrow> (Some TypeError, ob)
             | This_OrderBook \<Rightarrow>
                 then_do (changeState Error ob)
                   (\<lambda>ob1. (None, perform (Log Err ''Failed to load snapshot'') ob1)))
          else load This_other data ob)"

subsection \<open>Runs of calls\<close>

text \<open>
  A run of \<open>changeState\<close> calls, as made by successive event handlers: each call starts
  from the fields the previous one left, whether it returned or threw, and the outcome of
  each call is recorded.
\<close>

fun changeStates :: "STATES list \<Rightarrow> OrderBook \<Rightarrow> exn option list \<times> OrderBook" where
  "changeStates [] ob = ([], ob)"
| "changeStates (st # sts) ob =
     (fst (changeState st ob) # fst (changeStates sts (snd (changeState st ob))),
      snd (changeStates sts (snd (changeState st ob))))"

text \<open>The same for a run of messages handed to \<open>processMessage\<close>.\<close>

fun processMessages :: "(message \<times> time_arg) list \<Rightarrow> OrderBook \<Rightarrow> OrderBook" where
  "processMessages [] ob = ob"
| "processMessages (e # es) ob = processMessages es (snd (processMessage (fst e) (snd e) ob))"

text \<open>
  The constructor: \<open>failCount = 0\<close>, then \<open>this.connect()\<close>; no listener is registered
  yet.
\<close>

definition unconnected :: "string \<Rightarrow> string \<Rightarrow> string \<Rightarrow> OrderBook" where
  "unconnected pid wsURI rURI =
     \<lparr>state = None,
      book = \<lparr>sequence = Null, bids = Map.empty, asks = Map.empty\<rparr>,
      queue = [], socket = None, failCount = 0,
      productID = pid, websocketURI = wsURI, restURI = rURI,
      listeners = [], sockets_made = 0, trace = []\<rparr>"

definition new_OrderBook :: "string \<Rightarrow> string \<Rightarrow> string \<Rightarrow> OrderBook" where
  "new_OrderBook pid wsURI rURI = connect (unconnected pid wsURI rURI)"

subsection \<open>Counting scheduled reconnects, and example objects\<close>

text \<open>The number of \<open>setTimeout(() => this.connect(), 5000)\<close> calls made so far.\<close>

definition reconnects_scheduled :: "OrderBook \<Rightarrow> nat" where
  "reconnects_scheduled ob = count_list (trace ob) (SetTimeout_connect 5000)"

text \<open>
  An object in the \<open>Processing\<close> state whose book is at sequence \<open>c\<close>, a message with
  sequence \<open>s\<close>, the snapshot of the specification's round-trip example, and a freshly
  constructed object whose socket has opened (\<open>onOpen\<close> has run, the snapshot request is
  out).
\<close>

definition book_at :: "int \<Rightarrow> OrderBook" where
  "book_at c =
     (new_OrderBook ''BTC-USD'' ''wss://feed'' ''https://api'')
       \<lparr>state := Some Processing,
        book := \<lparr>sequence = Number c, bids = Map.empty, asks = Map.empty\<rparr>\<rparr>"

definition msg_at :: "int \<Rightarrow> message" where
  "msg_at s = \<lparr>m_sequence = Number s, m_type = ''received'', m_rest = ''{}''\<rparr>"

text \<open>
  A message without a \<open>sequence\<close> field, and a message of type \<open>error\<close> with sequence
  \<open>s\<close>.
\<close>

definition msg_without_sequence :: message where
  "msg_without_sequence = \<lparr>m_sequence = Undefined, m_type = ''heartbeat'', m_rest = ''{}''\<rparr>"

definition error_msg_at :: "int \<Rightarrow> message" where
  "error_msg_at s = \<lparr>m_sequence = Number s, m_type = ''error'', m_rest = ''{}''\<rparr>"

definition snapshot_50 :: snapshot where
  "snapshot_50 =
     \<lparr>s_sequence = Number 50,
      s_bids = Some [(Num 100, Num 2, ''a''), (Num 99, Num 1, ''b'')],
      s_asks = Some [(Num 101, Num 3, ''c'')]\<rparr>"

definition syncing_book :: OrderBook where
  "syncing_book = snd (onOpen (new_OrderBook ''BTC-USD'' ''wss://feed'' ''https://api''))"

section \<open>Properties of \<open>changeState\<close>\<close>

lemma changeState_gave_up:
  "3 < failCount ob \<Longrightarrow> changeState st ob = (Some GaveUp, ob\<lparr>state := Some st\<rparr>)"
  by (simp add: changeState_def Let_def)

lemma changeState_failure:
  assumes "failCount ob \<le> 3" and "st = Error \<or> st = Closed" and "socket ob = Some k"
  shows "changeState st ob =
           (None, ob\<lparr>state := Some st, failCount := failCount ob + 1,
                     trace := trace ob @ [Socket_close k, SetTimeout_connect 5000,
                                          Log Info ''statechange: '',
                                          Emit_statechange (state ob) st]\<rparr>)"
  using assms by (auto simp add: changeState_def Let_def then_do_def perform_def emit_def)

lemma changeState_processing:
  assumes "failCount ob \<le> 3"
  shows "changeState Processing ob =
           (None, ob\<lparr>state := Some Processing, failCount := 0,
                     trace := trace ob @ [Log Info ''statechange: '',
                                          Emit_statechange (state ob) Processing]\<rparr>)"
  using assms by (simp add: changeState_def Let_def then_do_def perform_def emit_def)


lemma changeState_no_socket:
  assumes "failCount ob \<le> 3" and "st = Error \<or> st = Closed" and "socket ob = None"
  shows "changeState st ob = (Some TypeError, ob\<lparr>state := Some st, failCount := failCount ob + 1\<rparr>)"
  using assms by (auto simp add: changeState_def Let_def then_do_def perform_def emit_def)

lemma changeState_book: "book (snd (changeState st ob)) = book ob"
  by (simp add: changeState_def Let_def then_do_def perform_def emit_def split: option.splits)

lemma changeState_queue: "queue (snd (changeState st ob)) = queue ob"
  by (simp add: changeState_def Let_def then_do_def perform_def emit_def split: option.splits)

lemma changeStates_gave_up:
  "3 < failCount ob \<Longrightarrow>
     changeStates sts ob =
       (replicate (length sts) (Some GaveUp),
        ob\<lparr>state := (if sts = [] then state ob else Some (last sts))\<rparr>)"
proof (induction sts arbitrary: ob)
  case Nil
  then show ?case by simp
next
  case (Cons st sts)
  have step: "changeState st ob = (Some GaveUp, ob\<lparr>state := Some st\<rparr>)"
    using Cons.prems by (rule changeState_gave_up)
  have "3 < failCount (ob\<lparr>state := Some st\<rparr>)"
    using Cons.prems by simp
  from Cons.IH [OF this] show ?case
    by (simp add: step)
qed

lemma connect_failCount: "failCount (connect ob) = failCount ob \<and> state (connect ob) = state ob"
  by (simp add: connect_def clearBook_def perform_def emit_def Let_def split: option.splits)

text \<open>
  C10. Once the failure counter exceeds 3, a call of \<open>changeState\<close> with any target raises
  the give-up error having done nothing but assign the field \<open>state\<close>: nothing is emitted,
  the counter is neither incremented nor reset. The counter therefore stays above 3, and
  in every later run of calls each call raises the give-up error again, the counter is
  what it was and no effect has been added to the trace.
\<close>

theorem changeState_after_threshold:
  assumes "3 < failCount ob"
  shows "changeState st ob = (Some GaveUp, ob\<lparr>state := Some st\<rparr>)
       \<and> fst (changeStates sts ob) = replicate (length sts) (Some GaveUp)
       \<and> failCount (snd (changeStates sts ob)) = failCount ob
       \<and> trace (snd (changeStates sts ob)) = trace ob"
  using assms by (simp add: changeState_gave_up changeStates_gave_up)

theorem changeState_after_threshold_witness:
  "3 < failCount ((new_OrderBook ''BTC-USD'' ''wss://feed'' ''https://api'')\<lparr>failCount := 4\<rparr>)
   \<and> fst (changeState Processing
            ((new_OrderBook ''BTC-USD'' ''wss://feed'' ''https://api'')\<lparr>failCount := 4\<rparr>))
       = Some GaveUp
   \<and> fst (changeStates [Open, Syncing, Processing]
            ((new_OrderBook ''BTC-USD'' ''wss://feed'' ''https://api'')\<lparr>failCount := 4\<rparr>))
       = [Some GaveUp, Some GaveUp, Some GaveUp]
   \<and> failCount (snd (changeStates [Open, Syncing, Processing]
            ((new_OrderBook ''BTC-USD'' ''wss://feed'' ''https://api'')\<lparr>failCount := 4\<rparr>))) = 4"
  using changeState_after_threshold
    [of "(new_OrderBook ''BTC-USD'' ''wss://feed'' ''https://api'')\<lparr>failCount := 4\<rparr>"
        Processing "[Open, Syncing, Processing]"]
  by simp

section \<open>Properties of \<open>disconnect\<close> and \<open>connect\<close>\<close>

text \<open>
  C8. \<open>disconnect\<close> on an object without a socket throws the not-connected error and
  changes no field and has no effect: the object afterwards is the object before.
\<close>

theorem disconnect_not_connected:
  "socket ob = None \<Longrightarrow> disconnect ob = (Some NotConnected, ob)"
  by (simp add: disconnect_def)

theorem disconnect_not_connected_witness:
  "socket (unconnected ''BTC-USD'' ''wss://feed'' ''https://api'') = None
   \<and> disconnect (unconnected ''BTC-USD'' ''wss://feed'' ''https://api'')
       = (Some NotConnected, unconnected ''BTC-USD'' ''wss://feed'' ''https://api'')"
  using disconnect_not_connected [of "unconnected ''BTC-USD'' ''wss://feed'' ''https://api''"]
  by (simp add: unconnected_def)

lemma processMessage_sides:
  "bids (book (snd (processMessage msg t ob))) = bids (book ob)
   \<and> asks (book (snd (processMessage msg t ob))) = asks (book ob)"
proof -
  obtain e ob1 where cs: "changeState Error ob = (e, ob1)"
    by (cases "changeState Error ob")
  have "book ob1 = book ob"
    using changeState_book [of Error ob] cs by simp
  then show ?thesis
    by (cases e) (simp_all add: processMessage_def then_do_def perform_def emit_def cs)
qed

lemma onMessage_sides:
  "bids (book (snd (onMessage now msg ob))) = bids (book ob)
   \<and> asks (book (snd (onMessage now msg ob))) = asks (book ob)"
  by (simp add: onMessage_def Let_def processMessage_sides)

text \<open>
  C7. Whatever the object held before, \<open>connect\<close> returns with both sides of the book
  empty, the sequence unset and the queue empty. The new socket is created after the
  book has been cleared: its creation is the last effect of \<open>connect\<close>, and it is the
  current socket afterwards. The first message handled after \<open>connect\<close> finds no order on
  either side and leaves none.
\<close>

theorem connect_clears:
  "book (connect ob) = \<lparr>sequence = Null, bids = Map.empty, asks = Map.empty\<rparr>
   \<and> queue (connect ob) = []
   \<and> socket (connect ob) = Some (sockets_made ob)
   \<and> last (trace (connect ob)) = Socket_new (sockets_made ob) (websocketURI ob)
   \<and> bids (book (snd (onMessage now msg (connect ob)))) oid = None
   \<and> asks (book (snd (onMessage now msg (connect ob)))) oid = None"
proof -
  have b: "book (connect ob) = \<lparr>sequence = Null, bids = Map.empty, asks = Map.empty\<rparr>"
    by (simp add: connect_def clearBook_def perform_def emit_def Let_def split: option.splits)
  have q: "queue (connect ob) = []"
    by (simp add: connect_def clearBook_def perform_def emit_def Let_def split: option.splits)
  have s: "socket (connect ob) = Some (sockets_made ob)"
    by (simp add: connect_def clearBook_def perform_def emit_def Let_def split: option.splits)
  have l: "last (trace (connect ob)) = Socket_new (sockets_made ob) (websocketURI ob)"
    by (simp add: connect_def clearBook_def perform_def emit_def Let_def split: option.splits)
  show ?thesis
    by (simp add: b q s l onMessage_sides)
qed

section \<open>Properties of \<open>processMessage\<close>\<close>

lemma js_add_one_safe: "safe_integer c \<Longrightarrow> js_add_one c = c + 1"
  by (simp add: safe_integer_def js_add_one_def)

lemma processMessage_stale:
  "js_le (m_sequence msg) (sequence (book ob)) \<Longrightarrow>
     processMessage msg t ob = (None, ob\<lparr>trace := trace ob @ [Emit_ignored msg]\<rparr>)"
  by (simp add: processMessage_def perform_def emit_def)

lemma processMessage_gapped:
  assumes "to_number (sequence (book ob)) = Some c" and "safe_integer c"
    and "m_sequence msg = Number s" and "c + 1 < s"
    and "failCount ob \<le> 3" and "socket ob = Some k"
    and "m_type msg \<noteq> ''error'' \<or> ''error'' \<in> set (listeners ob)"
  shows "processMessage msg t ob =
           (None, ob\<lparr>state := Some Error, failCount := failCount ob + 1,
                     book := (book ob)\<lparr>sequence := Number s\<rparr>,
                     trace := trace ob @
                       [Socket_close k, SetTimeout_connect 5000,
                        Log Info ''statechange: '', Emit_statechange (state ob) Error,
                        Log Warn ''Received message out of order'',
                        Emit (m_type msg) \<lparr>ts_data = msg, ts_time = t\<rparr>]\<rparr>)"
proof -
  have cs: "changeState Error ob =
              (None, ob\<lparr>state := Some Error, failCount := failCount ob + 1,
                        trace := trace ob @ [Socket_close k, SetTimeout_connect 5000,
                                             Log Info ''statechange: '',
                                             Emit_statechange (state ob) Error]\<rparr>)"
    using assms(5,6) by (simp add: changeState_failure)
  have not_stale: "\<not> js_le (m_sequence msg) (sequence (book ob))"
    using assms(1,3,4) by (simp add: js_le_def to_number_def)
  have gap: "js_ne (m_sequence msg) (js_plus_one (sequence (book ob)))"
    using assms(1,2,3,4) by (simp add: js_ne_def js_plus_one_def js_add_one_safe)
  show ?thesis
    using not_stale gap assms(3,7)
    by (auto simp add: processMessage_def cs then_do_def perform_def emit_def)
qed

lemma processMessage_book:
  "book (snd (processMessage msg t ob)) = book ob
   \<or> book (snd (processMessage msg t ob)) = (book ob)\<lparr>sequence := m_sequence msg\<rparr>
      \<and> \<not> js_le (m_sequence msg) (sequence (book ob))"
proof -
  obtain e ob1 where cs: "changeState Error ob = (e, ob1)"
    by (cases "changeState Error ob")
  have "book ob1 = book ob"
    using changeState_book [of Error ob] cs by simp
  then show ?thesis
    by (cases e) (simp_all add: processMessage_def then_do_def perform_def emit_def cs)
qed

text \<open>
  A store sequence that is \<open>null\<close> or a number stays so under messages whose sequence is
  a number, and is not decreased by them.
\<close>

lemma processMessage_sequence_step:
  assumes "is_number (m_sequence msg)"
    and "sequence (book ob) = Null \<or> is_number (sequence (book ob))"
  shows "js_le (sequence (book ob)) (sequence (book (snd (processMessage msg t ob))))
       \<and> (sequence (book (snd (processMessage msg t ob))) = Null
            \<or> is_number (sequence (book (snd (processMessage msg t ob)))))"
proof -
  obtain s where s: "m_sequence msg = Number s"
    using assms(1) by (cases "m_sequence msg") (simp_all add: is_number_def)
  obtain c where c: "to_number (sequence (book ob)) = Some c"
    using assms(2) by (cases "sequence (book ob)") (auto simp add: is_number_def to_number_def)
  from processMessage_book [of msg t ob] show ?thesis
  proof
    assume "book (snd (processMessage msg t ob)) = book ob"
    then show ?thesis
      using assms(2) c by (simp add: js_le_def)
  next
    assume "book (snd (processMessage msg t ob)) = (book ob)\<lparr>sequence := m_sequence msg\<rparr>
              \<and> \<not> js_le (m_sequence msg) (sequence (book ob))"
    then show ?thesis
      using s c by (simp add: js_le_def to_number_def is_number_def)
  qed
qed

lemma js_le_trans: "js_le a b \<Longrightarrow> js_le b c \<Longrightarrow> js_le a c"
  by (auto simp add: js_le_def split: option.splits)

lemma processMessages_sequence:
  assumes "\<forall>e \<in> set evs. is_number (m_sequence (fst e))"
    and "sequence (book ob) = Null \<or> is_number (sequence (book ob))"
  shows "js_le (sequence (book ob)) (sequence (book (processMessages evs ob)))"
  using assms
proof (induction evs arbitrary: ob)
  case Nil
  then show ?case
    by (cases "sequence (book ob)") (auto simp add: js_le_def to_number_def is_number_def)
next
  case (Cons e evs)
  have num: "is_number (m_sequence (fst e))"
    using Cons.prems(1) by simp
  note step = processMessage_sequence_step [OF num Cons.prems(2), of "snd e"]
  have "\<forall>e \<in> set evs. is_number (m_sequence (fst e))"
    using Cons.prems(1) by simp
  from Cons.IH [OF this conjunct2 [OF step]]
  have "js_le (sequence (book (snd (processMessage (fst e) (snd e) ob))))
              (sequence (book (processMessages (e # evs) ob)))"
    by simp
  with conjunct1 [OF step] show ?case
    by (rule js_le_trans)
qed

lemma book_at_fields:
  "state (book_at c) = Some Processing"
  "sequence (book (book_at c)) = Number c"
  "socket (book_at c) = Some 0"
  "failCount (book_at c) = 0"
  "listeners (book_at c) = []"
  "trace (book_at c) = [Log Info ''Starting connect'', Socket_new 0 ''wss://feed'']"
  by (simp_all add: book_at_def new_OrderBook_def unconnected_def connect_def clearBook_def
        perform_def Let_def)

text \<open>
  C5, the claim as stated fails. From a store at sequence 10, a message without a
  \<open>sequence\<close> field is neither stale nor in order for the comparisons of \<open>processMessage\<close>:
  it is applied and the store's sequence becomes \<open>undefined\<close>. The message with sequence 5
  that follows is then not stale either, and the store's sequence becomes 5.
\<close>

theorem sequence_decreases_counterexample:
  "sequence (book (book_at 10)) = Number 10
   \<and> sequence (book (processMessages [(msg_without_sequence, Date 1000)] (book_at 10)))
       = Undefined
   \<and> sequence (book (processMessages
        [(msg_without_sequence, Date 1000), (msg_at 5, Date 1001)] (book_at 10)))
       = Number 5"
  by (simp add: processMessage_def changeState_def then_do_def perform_def emit_def Let_def
        js_le_def js_ne_def js_plus_one_def to_number_def book_at_fields
        msg_without_sequence_def msg_at_def)

text \<open>
  C5, amended. Over every run of messages whose sequence is a number, handed to
  \<open>processMessage\<close> from any state in which the store's sequence is \<open>null\<close> or a number,
  the store's sequence does not decrease: the sequence before is \<open><=\<close> the sequence after,
  in the comparison of \<open>processMessage\<close> itself. A stale message, one whose sequence is
  \<open><=\<close> the current one, makes \<open>processMessage\<close> return normally with a single effect, the
  \<open>ignored\<close> event carrying the message: the book (sequence, bids, asks) and every other
  field are what they were, and no event named after the message's type is emitted.
\<close>

theorem processMessage_sequence_never_decreases:
  assumes "\<forall>e \<in> set evs. is_number (m_sequence (fst e))"
    and "sequence (book ob) = Null \<or> is_number (sequence (book ob))"
    and "js_le (m_sequence msg) (sequence (book ob))"
  shows "js_le (sequence (book ob)) (sequence (book (processMessages evs ob)))
       \<and> processMessage msg t ob = (None, ob\<lparr>trace := trace ob @ [Emit_ignored msg]\<rparr>)
       \<and> book (snd (processMessage msg t ob)) = book ob"
  using assms by (simp add: processMessages_sequence processMessage_stale)

theorem processMessage_sequence_never_decreases_witness:
  "is_number (m_sequence (msg_at 48)) \<and> is_number (m_sequence (msg_at 51))
   \<and> is_number (m_sequence (msg_at 53))
   \<and> is_number (sequence (book (book_at 50)))
   \<and> js_le (m_sequence (msg_at 48)) (sequence (book (book_at 50)))
   \<and> processMessage (msg_at 48) (Date 1000) (book_at 50)
       = (None, (book_at 50)\<lparr>trace := trace (book_at 50) @ [Emit_ignored (msg_at 48)]\<rparr>)
   \<and> js_le (sequence (book (book_at 50)))
        (sequence (book (processMessages
             [(msg_at 48, Date 1000), (msg_at 51, Date 1001), (msg_at 53, Date 1002)]
             (book_at 50))))"
proof -
  have nums: "\<forall>e \<in> set [(msg_at 48, Date 1000), (msg_at 51, Date 1001), (msg_at 53, Date 1002)].
                is_number (m_sequence (fst e))"
    by (simp add: msg_at_def is_number_def)
  have start: "sequence (book (book_at 50)) = Null \<or> is_number (sequence (book (book_at 50)))"
    by (simp add: book_at_fields is_number_def)
  have stale: "js_le (m_sequence (msg_at 48)) (sequence (book (book_at 50)))"
    by (simp add: book_at_fields msg_at_def js_le_def to_number_def)
  have each: "is_number (m_sequence (msg_at 48))" "is_number (m_sequence (msg_at 51))"
    "is_number (m_sequence (msg_at 53))" "is_number (sequence (book (book_at 50)))"
    by (simp_all add: msg_at_def book_at_fields is_number_def)
  from processMessage_sequence_never_decreases [OF nums start stale, of "Date 1000"]
  show ?thesis
    using each stale by blast
qed

text \<open>
  C1, the claim as stated fails. In the \<open>Processing\<close> state at sequence 10, with the failure
  counter at 0, the message with sequence 12 leaves the object in the \<open>Error\<close> state with the
  failure counter at 1, and the socket close and the reconnect timer are among the effects
  of \<open>processMessage\<close>.
\<close>

theorem processMessage_gap_counterexample:
  "state (snd (processMessage (msg_at 12) (Date 1000) (book_at 10))) = Some Error
   \<and> failCount (snd (processMessage (msg_at 12) (Date 1000) (book_at 10))) = 1
   \<and> trace (snd (processMessage (msg_at 12) (Date 1000) (book_at 10)))
       = trace (book_at 10) @
         [Socket_close 0, SetTimeout_connect 5000,
          Log Info ''statechange: '', Emit_statechange (Some Processing) Error,
          Log Warn ''Received message out of order'',
          Emit ''received'' \<lparr>ts_data = msg_at 12, ts_time = Date 1000\<rparr>]"
proof -
  have c: "to_number (sequence (book (book_at 10))) = Some 10" "safe_integer 10"
    and s: "m_sequence (msg_at 12) = Number 12" "(10::int) + 1 < 12"
    by (simp_all add: book_at_fields msg_at_def to_number_def safe_integer_def)
  have o: "failCount (book_at 10) \<le> 3" "socket (book_at 10) = Some 0"
    "m_type (msg_at 12) \<noteq> ''error'' \<or> ''error'' \<in> set (listeners (book_at 10))"
    by (simp_all add: book_at_fields msg_at_def)
  from processMessage_gapped [OF c s o, of "Date 1000"] show ?thesis
    by (simp add: book_at_fields msg_at_def)
qed

text \<open>
  Two more inputs on which a message beyond the next sequence is not handled as the
  gap lemma describes. At the store sequence 9007199254740994 the sum \<open>sequence + 1\<close>
  rounds to 9007199254740996, so the message with that sequence counts as the next one:
  no state change, no warning. And a message of type \<open>error\<close>, when no listener is
  registered for \<open>error\<close>, makes the final \<open>emit\<close> throw after the store's sequence has been
  advanced: the event reaches no subscriber. With a listener registered it is emitted.
\<close>

lemma processMessage_rounded_successor:
  "processMessage (msg_at 9007199254740996) (Date 1000) (book_at 9007199254740994)
     = (None, (book_at 9007199254740994)
          \<lparr>book := (book (book_at 9007199254740994))\<lparr>sequence := Number 9007199254740996\<rparr>,
           trace := trace (book_at 9007199254740994) @
             [Emit ''received'' \<lparr>ts_data = msg_at 9007199254740996, ts_time = Date 1000\<rparr>]\<rparr>)"
  by (simp add: processMessage_def then_do_def perform_def emit_def js_le_def js_ne_def
        js_plus_one_def js_add_one_def to_number_def book_at_fields msg_at_def)

lemma processMessage_error_type_unheard:
  "fst (processMessage (error_msg_at 11) (Date 1000) (book_at 10)) = Some Unhandled_error
   \<and> sequence (book (snd (processMessage (error_msg_at 11) (Date 1000) (book_at 10))))
       = Number 11
   \<and> trace (snd (processMessage (error_msg_at 11) (Date 1000) (book_at 10)))
       = trace (book_at 10)"
  by (simp add: processMessage_def then_do_def perform_def emit_def js_le_def js_ne_def
        js_plus_one_def js_add_one_def to_number_def book_at_fields error_msg_at_def)

lemma processMessage_error_type_heard:
  "processMessage (error_msg_at 11) (Date 1000) (on ''error'' (book_at 10))
     = (None, (on ''error'' (book_at 10))
          \<lparr>book := (book (book_at 10))\<lparr>sequence := Number 11\<rparr>,
           trace := trace (book_at 10) @
             [Emit ''error'' \<lparr>ts_data = error_msg_at 11, ts_time = Date 1000\<rparr>]\<rparr>)"
  by (simp add: processMessage_def then_do_def perform_def emit_def js_le_def js_ne_def
        js_plus_one_def js_add_one_def to_number_def book_at_fields error_msg_at_def on_def)

text \<open>
  C1, amended. Let the current sequence be a number \<open>c\<close> (\<open>null\<close> counting as 0) in the
  range where \<open>c + 1\<close> is exact, and let a message carry a number \<open>s > c + 1\<close> as its
  sequence; let the failure counter be at most 3, a socket exist, and the message's type
  either differ from \<open>error\<close> or have a listener. Then the message is still applied and
  emitted: the store's sequence becomes \<open>s\<close>, a warning is logged and the event is emitted
  under the message's type with the time passed in. But the gap is treated as a failure
  of the connection first: \<open>processMessage\<close> calls \<open>changeState(error)\<close>, so the state
  becomes \<open>Error\<close>, the failure counter is incremented, the socket is closed, a reconnect is
  scheduled after 5000 ms and the state change is emitted. A stale message changes
  nothing of the connection: its only effect is the \<open>ignored\<close> event.
\<close>

theorem processMessage_gap_is_failure:
  assumes "to_number (sequence (book ob)) = Some c" and "safe_integer c"
    and "m_sequence msg = Number s" and "c + 1 < s"
    and "failCount ob \<le> 3" and "socket ob = Some k"
    and "m_type msg \<noteq> ''error'' \<or> ''error'' \<in> set (listeners ob)"
    and "js_le (m_sequence old) (sequence (book ob))"
  shows "processMessage msg t ob =
           (None, ob\<lparr>state := Some Error, failCount := failCount ob + 1,
                     book := (book ob)\<lparr>sequence := Number s\<rparr>,
                     trace := trace ob @
                       [Socket_close k, SetTimeout_connect 5000,
                        Log Info ''statechange: '', Emit_statechange (state ob) Error,
                        Log Warn ''Received message out of order'',
                        Emit (m_type msg) \<lparr>ts_data = msg, ts_time = t\<rparr>]\<rparr>)
       \<and> processMessage old t ob = (None, ob\<lparr>trace := trace ob @ [Emit_ignored old]\<rparr>)"
  using assms by (simp add: processMessage_gapped processMessage_stale)

theorem processMessage_gap_is_failure_witness:
  "to_number (sequence (book (book_at 10))) = Some 10 \<and> safe_integer 10
   \<and> m_sequence (msg_at 12) = Number 12 \<and> (10::int) + 1 < 12
   \<and> failCount (book_at 10) \<le> 3 \<and> socket (book_at 10) = Some 0
   \<and> m_type (msg_at 12) \<noteq> ''error''
   \<and> js_le (m_sequence (msg_at 9)) (sequence (book (book_at 10)))
   \<and> sequence (book (snd (processMessage (msg_at 12) (Date 1000) (book_at 10)))) = Number 12
   \<and> state (snd (processMessage (msg_at 12) (Date 1000) (book_at 10))) = Some Error
   \<and> state (snd (processMessage (msg_at 9) (Date 1000) (book_at 10))) = Some Processing"
proof -
  have c: "to_number (sequence (book (book_at 10))) = Some 10" "safe_integer 10"
    and s: "m_sequence (msg_at 12) = Number 12" "(10::int) + 1 < 12"
    by (simp_all add: book_at_fields msg_at_def to_number_def safe_integer_def)
  have o: "failCount (book_at 10) \<le> 3" "socket (book_at 10) = Some 0"
    "m_type (msg_at 12) \<noteq> ''error'' \<or> ''error'' \<in> set (listeners (book_at 10))"
    by (simp_all add: book_at_fields msg_at_def)
  have stale: "js_le (m_sequence (msg_at 9)) (sequence (book (book_at 10)))"
    by (simp add: book_at_fields msg_at_def js_le_def to_number_def)
  have ty: "m_type (msg_at 12) \<noteq> ''error''"
    by (simp add: msg_at_def)
  from processMessage_gap_is_failure [OF c s o stale, of "Date 1000"]
  show ?thesis
    using c s o ty stale by (simp add: book_at_fields)
qed

section \<open>The give-up threshold\<close>

lemma changeStates_append:
  "changeStates (xs @ ys) ob =
     (fst (changeStates xs ob) @ fst (changeStates ys (snd (changeStates xs ob))),
      snd (changeStates ys (snd (changeStates xs ob))))"
  by (induction xs arbitrary: ob) simp_all

lemma changeStates_failures:
  assumes "set sts \<subseteq> {Error, Closed}" and "failCount ob + length sts \<le> 4"
    and "socket ob = Some k"
  shows "fst (changeStates sts ob) = replicate (length sts) None
       \<and> failCount (snd (changeStates sts ob)) = failCount ob + length sts
       \<and> socket (snd (changeStates sts ob)) = Some k
       \<and> state (snd (changeStates sts ob)) = (if sts = [] then state ob else Some (last sts))
       \<and> reconnects_scheduled (snd (changeStates sts ob)) = reconnects_scheduled ob + length sts"
  using assms
proof (induction sts arbitrary: ob)
  case Nil
  then show ?case by simp
next
  case (Cons st sts)
  let ?ob1 = "ob\<lparr>state := Some st, failCount := failCount ob + 1,
                 trace := trace ob @ [Socket_close k, SetTimeout_connect 5000,
                                      Log Info ''statechange: '',
                                      Emit_statechange (state ob) st]\<rparr>"
  have st: "st = Error \<or> st = Closed" and cnt: "failCount ob \<le> 3"
    using Cons.prems by auto
  have step: "changeState st ob = (None, ?ob1)"
    using cnt st Cons.prems(3) by (rule changeState_failure)
  have "set sts \<subseteq> {Error, Closed}" and "failCount ?ob1 + length sts \<le> 4"
    and "socket ?ob1 = Some k"
    using Cons.prems by auto
  from Cons.IH [OF this] show ?case
    by (simp add: step reconnects_scheduled_def)
qed

lemma changeStates_last:
  "changeStates (sts @ [st]) ob =
     (fst (changeStates sts ob) @ [fst (changeState st (snd (changeStates sts ob)))],
      snd (changeState st (snd (changeStates sts ob))))"
  by (simp add: changeStates_append)

lemma new_OrderBook_fields:
  "state (new_OrderBook p w r) = None"
  "socket (new_OrderBook p w r) = Some 0"
  "failCount (new_OrderBook p w r) = 0"
  "trace (new_OrderBook p w r) = [Log Info ''Starting connect'', Socket_new 0 w]"
  by (simp_all add: new_OrderBook_def unconnected_def connect_def clearBook_def
        perform_def emit_def Let_def)

text \<open>
  C2, the claim as stated fails. On a freshly constructed object, four transitions into
  \<open>Error\<close> in a row all return normally, and the fourth, like the three before it, closes
  the socket and schedules a reconnect: four reconnects are scheduled in all.
\<close>

theorem fourth_failure_counterexample:
  "fst (changeStates [Error, Error, Error, Error]
          (new_OrderBook ''BTC-USD'' ''wss://feed'' ''https://api''))
     = [None, None, None, None]
   \<and> reconnects_scheduled (snd (changeStates [Error, Error, Error, Error]
          (new_OrderBook ''BTC-USD'' ''wss://feed'' ''https://api''))) = 4
   \<and> failCount (snd (changeStates [Error, Error, Error]
          (new_OrderBook ''BTC-USD'' ''wss://feed'' ''https://api''))) = 3
   \<and> trace (snd (changeStates [Error, Error, Error, Error]
          (new_OrderBook ''BTC-USD'' ''wss://feed'' ''https://api'')))
       = trace (snd (changeStates [Error, Error, Error]
          (new_OrderBook ''BTC-USD'' ''wss://feed'' ''https://api''))) @
         [Socket_close 0, SetTimeout_connect 5000,
          Log Info ''statechange: '', Emit_statechange (Some Error) Error]"
  by (simp add: changeState_def then_do_def perform_def emit_def Let_def new_OrderBook_fields
        reconnects_scheduled_def)

text \<open>
  C2, amended. Starting with the failure counter at 0 and a socket, four consecutive
  transitions into \<open>Error\<close> or \<open>Closed\<close> all return normally; each of them, the fourth
  included, closes the socket and schedules a reconnect, and the counter is 4 afterwards.
  The give-up error is raised by the next call of \<open>changeState\<close>, whatever its target, and
  that call schedules nothing and emits nothing.
\<close>

theorem give_up_on_fifth_transition:
  assumes "failCount ob = 0" and "socket ob = Some k"
    and "set [s1, s2, s3, s4] \<subseteq> {Error, Closed}"
  shows "fst (changeStates [s1, s2, s3, s4] ob) = [None, None, None, None]
       \<and> failCount (snd (changeStates [s1, s2, s3, s4] ob)) = 4
       \<and> reconnects_scheduled (snd (changeStates [s1, s2, s3, s4] ob))
           = reconnects_scheduled ob + 4
       \<and> trace (snd (changeStates [s1, s2, s3, s4] ob))
           = trace (snd (changeStates [s1, s2, s3] ob)) @
             [Socket_close k, SetTimeout_connect 5000,
              Log Info ''statechange: '', Emit_statechange (Some s3) s4]
       \<and> changeState st (snd (changeStates [s1, s2, s3, s4] ob))
           = (Some GaveUp, (snd (changeStates [s1, s2, s3, s4] ob))\<lparr>state := Some st\<rparr>)"
proof -
  let ?ob3 = "snd (changeStates [s1, s2, s3] ob)"
  let ?ob4 = "snd (changeStates [s1, s2, s3, s4] ob)"
  have three: "set [s1, s2, s3] \<subseteq> {Error, Closed}" "failCount ob + length [s1, s2, s3] \<le> 4"
    using assms by auto
  have f3: "failCount ?ob3 = 3" "socket ?ob3 = Some k" "state ?ob3 = Some s3"
    using changeStates_failures [OF three assms(2)] assms(1) by simp_all
  have s4: "s4 = Error \<or> s4 = Closed"
    using assms(3) by auto
  have step: "changeState s4 ?ob3 =
                (None, ?ob3\<lparr>state := Some s4, failCount := failCount ?ob3 + 1,
                             trace := trace ?ob3 @ [Socket_close k, SetTimeout_connect 5000,
                                                    Log Info ''statechange: '',
                                                    Emit_statechange (state ?ob3) s4]\<rparr>)"
    using f3 s4 by (intro changeState_failure) simp_all
  have split4: "changeStates [s1, s2, s3, s4] ob = changeStates ([s1, s2, s3] @ [s4]) ob"
    by simp
  have tr: "trace ?ob4 = trace ?ob3 @ [Socket_close k, SetTimeout_connect 5000,
                                       Log Info ''statechange: '',
                                       Emit_statechange (Some s3) s4]"
    unfolding split4 changeStates_last using step f3 by simp
  have four: "failCount ob + length [s1, s2, s3, s4] \<le> 4"
    using assms(1) by simp
  note all4 = changeStates_failures [OF assms(3) four assms(2)]
  have f4: "failCount ?ob4 = 4"
    using all4 assms(1) by simp
  then have "3 < failCount ?ob4" by simp
  then have gu: "changeState st ?ob4 = (Some GaveUp, ?ob4\<lparr>state := Some st\<rparr>)"
    by (rule changeState_gave_up)
  have outs: "fst (changeStates [s1, s2, s3, s4] ob) = [None, None, None, None]"
    using all4 by (simp add: numeral_eq_Suc)
  have rs: "reconnects_scheduled ?ob4 = reconnects_scheduled ob + 4"
    using all4 by simp
  show ?thesis
    using outs f4 rs tr gu by blast
qed

theorem give_up_on_fifth_transition_witness:
  "failCount (new_OrderBook ''BTC-USD'' ''wss://feed'' ''https://api'') = 0
   \<and> socket (new_OrderBook ''BTC-USD'' ''wss://feed'' ''https://api'') = Some 0
   \<and> set [Error, Closed, Closed, Error] \<subseteq> {Error, Closed}
   \<and> fst (changeStates [Error, Closed, Closed, Error]
            (new_OrderBook ''BTC-USD'' ''wss://feed'' ''https://api''))
       = [None, None, None, None]
   \<and> fst (changeState Open (snd (changeStates [Error, Closed, Closed, Error]
            (new_OrderBook ''BTC-USD'' ''wss://feed'' ''https://api''))))
       = Some GaveUp"
proof -
  have h: "failCount (new_OrderBook ''BTC-USD'' ''wss://feed'' ''https://api'') = 0"
    "socket (new_OrderBook ''BTC-USD'' ''wss://feed'' ''https://api'') = Some 0"
    "set [Error, Closed, Closed, Error] \<subseteq> {Error, Closed}"
    by (simp_all add: new_OrderBook_fields)
  from give_up_on_fifth_transition [OF h, of Open] show ?thesis
    using h by simp
qed

section \<open>The \<open>statechange\<close> event\<close>




section \<open>Resetting the failure counter\<close>

text \<open>
  C4, the claim as stated fails. After three failures, a transition into \<open>Processing\<close>
  and three more failures, a fourth consecutive failure raises nothing: all eight calls
  return normally, the eighth schedules one more reconnect and leaves the counter at 4.
  And with the counter at 4, entering \<open>Processing\<close> sets the state but does not reset the
  counter.
\<close>

theorem fourth_failure_after_reset_counterexample:
  "fst (changeStates [Error, Error, Error, Processing, Error, Error, Error, Error]
          (new_OrderBook ''BTC-USD'' ''wss://feed'' ''https://api''))
     = [None, None, None, None, None, None, None, None]
   \<and> failCount (snd (changeStates [Error, Error, Error, Processing, Error, Error, Error, Error]
          (new_OrderBook ''BTC-USD'' ''wss://feed'' ''https://api''))) = 4
   \<and> reconnects_scheduled
        (snd (changeStates [Error, Error, Error, Processing, Error, Error, Error, Error]
          (new_OrderBook ''BTC-USD'' ''wss://feed'' ''https://api''))) = 7
   \<and> changeState Processing
        ((new_OrderBook ''BTC-USD'' ''wss://feed'' ''https://api'')\<lparr>failCount := 4\<rparr>)
       = (Some GaveUp,
          (new_OrderBook ''BTC-USD'' ''wss://feed'' ''https://api'')
            \<lparr>failCount := 4, state := Some Processing\<rparr>)"
proof -
  let ?new = "new_OrderBook ''BTC-USD'' ''wss://feed'' ''https://api''"
  have a: "set [Error, Error, Error] \<subseteq> {Error, Closed}"
    "failCount ?new + length [Error, Error, Error] \<le> 4" "socket ?new = Some 0"
    by (simp_all add: new_OrderBook_fields)
  note r3 = changeStates_failures [OF a]
  let ?ob3 = "snd (changeStates [Error, Error, Error] ?new)"
  have c3: "failCount ?ob3 \<le> 3"
    using r3 by (simp add: new_OrderBook_fields)
  note p = changeState_processing [OF c3]
  let ?ob4 = "snd (changeState Processing ?ob3)"
  have b: "set [Error, Error, Error, Error] \<subseteq> {Error, Closed}"
    "failCount ?ob4 + length [Error, Error, Error, Error] \<le> 4" "socket ?ob4 = Some 0"
    using p r3 by simp_all
  note r4 = changeStates_failures [OF b]
  have rs4: "reconnects_scheduled ?ob4 = 3"
    using p r3 by (simp add: reconnects_scheduled_def new_OrderBook_fields)
  have run: "changeStates [Error, Error, Error, Processing, Error, Error, Error, Error] ?new
           = changeStates (([Error, Error, Error] @ [Processing]) @ [Error, Error, Error, Error]) ?new"
    by simp
  have outs: "fst (changeStates [Error, Error, Error, Processing, Error, Error, Error, Error] ?new)
                = [None, None, None, None, None, None, None, None]"
    unfolding run changeStates_append [of "[Error, Error, Error] @ [Processing]"] changeStates_last
    using r3 r4 p by (simp add: numeral_eq_Suc)
  have st: "snd (changeStates [Error, Error, Error, Processing, Error, Error, Error, Error] ?new)
              = snd (changeStates [Error, Error, Error, Error] ?ob4)"
    unfolding run changeStates_append [of "[Error, Error, Error] @ [Processing]"] changeStates_last
    by simp
  have fc: "failCount (snd (changeStates [Error, Error, Error, Error] ?ob4)) = 4"
    using r4 p by simp
  have rs: "reconnects_scheduled (snd (changeStates [Error, Error, Error, Error] ?ob4)) = 7"
    using r4 rs4 by simp
  have gu: "changeState Processing (?new\<lparr>failCount := 4\<rparr>)
              = (Some GaveUp, ?new\<lparr>failCount := 4, state := Some Processing\<rparr>)"
    by (simp add: changeState_gave_up)
  show ?thesis
    using outs fc rs gu unfolding st by blast
qed

text \<open>
  C4, amended. Entering \<open>Processing\<close> resets the failure counter to 0 whenever the counter
  is at most 3 on entry, so only consecutive failures count. Starting with the counter at
  0 and a socket: three failures, a transition into \<open>Processing\<close> and three more failures
  all return normally, and the counter was 0 after \<open>Processing\<close>. A fourth consecutive
  failure after that returns normally as well and brings the counter to 4; the give-up
  error is raised by the call of \<open>changeState\<close> that follows it, whatever its target.
\<close>

theorem processing_resets_failure_counter:
  assumes "failCount ob = 0" and "socket ob = Some k"
    and "set fs \<subseteq> {Error, Closed}" and "length fs = 3"
    and "set gs \<subseteq> {Error, Closed}" and "length gs = 3"
    and "g = Error \<or> g = Closed"
    and "failCount ob' \<le> 3"
  shows "failCount (snd (changeState Processing ob')) = 0
       \<and> failCount (snd (changeStates (fs @ [Processing]) ob)) = 0
       \<and> fst (changeStates (fs @ [Processing] @ gs) ob) = replicate 7 None
       \<and> fst (changeState g (snd (changeStates (fs @ [Processing] @ gs) ob))) = None
       \<and> failCount (snd (changeState g (snd (changeStates (fs @ [Processing] @ gs) ob)))) = 4
       \<and> fst (changeState st (snd (changeState g (snd (changeStates (fs @ [Processing] @ gs) ob)))))
           = Some GaveUp"
proof -
  let ?ob3 = "snd (changeStates fs ob)"
  have "failCount ob + length fs \<le> 4"
    using assms(1,4) by simp
  note r3 = changeStates_failures [OF assms(3) this assms(2)]
  have c3: "failCount ?ob3 \<le> 3"
    using r3 assms(1,4) by simp
  note p = changeState_processing [OF c3]
  let ?ob4 = "snd (changeState Processing ?ob3)"
  have ob4: "snd (changeStates (fs @ [Processing]) ob) = ?ob4"
    by (simp add: changeStates_last)
  have fc4: "failCount ?ob4 = 0" and sk4: "socket ?ob4 = Some k"
    using p r3 by simp_all
  have "failCount ?ob4 + length gs \<le> 4"
    using fc4 assms(6) by simp
  note r7 = changeStates_failures [OF assms(5) this sk4]
  let ?ob7 = "snd (changeStates gs ?ob4)"
  have run: "changeStates (fs @ [Processing] @ gs) ob
               = changeStates ((fs @ [Processing]) @ gs) ob"
    by simp
  have ob7: "snd (changeStates (fs @ [Processing] @ gs) ob) = ?ob7"
    unfolding run changeStates_append [of "fs @ [Processing]"] by (simp add: changeStates_last)
  have outs: "fst (changeStates (fs @ [Processing] @ gs) ob) = replicate 7 None"
    unfolding run changeStates_append [of "fs @ [Processing]"] changeStates_last
    using r3 r7 p assms(4,6) by (simp add: numeral_eq_Suc)
  have fc7: "failCount ?ob7 \<le> 3" "failCount ?ob7 = 3" and sk7: "socket ?ob7 = Some k"
    using r7 fc4 assms(6) by simp_all
  note f8 = changeState_failure [OF fc7(1) assms(7) sk7]
  let ?ob8 = "snd (changeState g ?ob7)"
  have fc8: "failCount ?ob8 = 4" and ok8: "fst (changeState g ?ob7) = None"
    using f8 fc7(2) by simp_all
  then have "3 < failCount ?ob8" by simp
  then have gu: "fst (changeState st ?ob8) = Some GaveUp"
    by (simp add: changeState_gave_up)
  have reset: "failCount (snd (changeState Processing ob')) = 0"
    using changeState_processing [OF assms(8)] by simp
  show ?thesis
    unfolding ob4 ob7 using reset fc4 outs ok8 fc8 gu by blast
qed

theorem processing_resets_failure_counter_witness:
  "failCount (new_OrderBook ''BTC-USD'' ''wss://feed'' ''https://api'') = 0
   \<and> socket (new_OrderBook ''BTC-USD'' ''wss://feed'' ''https://api'') = Some 0
   \<and> set [Error, Closed, Error] \<subseteq> {Error, Closed} \<and> length [Error, Closed, Error] = 3
   \<and> set [Closed, Closed, Error] \<subseteq> {Error, Closed} \<and> length [Closed, Closed, Error] = 3
   \<and> failCount ((book_at 10)\<lparr>failCount := 3\<rparr>) \<le> 3
   \<and> failCount (snd (changeState Processing ((book_at 10)\<lparr>failCount := 3\<rparr>))) = 0
   \<and> fst (changeStates ([Error, Closed, Error] @ [Processing] @ [Closed, Closed, Error])
            (new_OrderBook ''BTC-USD'' ''wss://feed'' ''https://api''))
       = replicate 7 None
   \<and> fst (changeState Error
            (snd (changeStates ([Error, Closed, Error] @ [Processing] @ [Closed, Closed, Error])
                    (new_OrderBook ''BTC-USD'' ''wss://feed'' ''https://api''))))
       = None
   \<and> fst (changeState Open (snd (changeState Error
            (snd (changeStates ([Error, Closed, Error] @ [Processing] @ [Closed, Closed, Error])
                    (new_OrderBook ''BTC-USD'' ''wss://feed'' ''https://api''))))))
       = Some GaveUp"
proof -
  have h: "failCount (new_OrderBook ''BTC-USD'' ''wss://feed'' ''https://api'') = 0"
    "socket (new_OrderBook ''BTC-USD'' ''wss://feed'' ''https://api'') = Some 0"
    "set [Error, Closed, Error] \<subseteq> {Error, Closed}" "length [Error, Closed, Error] = 3"
    "set [Closed, Closed, Error] \<subseteq> {Error, Closed}" "length [Closed, Closed, Error] = 3"
    "Error = Error \<or> Error = Closed"
    "failCount ((book_at 10)\<lparr>failCount := 3\<rparr>) \<le> 3"
    by (simp_all add: new_OrderBook_fields)
  from processing_resets_failure_counter [OF h, of Open] h show ?thesis
    by blast
qed

section \<open>Loading the snapshot\<close>

lemma insert_levels_other:
  "oid \<notin> set (map (\<lambda>l. snd (snd l)) ls) \<Longrightarrow> insert_levels ls side oid = side oid"
  by (induction ls arbitrary: side) (auto simp add: convertSnapshotArray_def Let_def)

lemma insert_levels_member:
  assumes "distinct (map (\<lambda>l. snd (snd l)) ls)" and "(p, s, oid) \<in> set ls"
  shows "insert_levels ls side oid = Some \<lparr>e_price = p, e_size = s, e_id = oid\<rparr>"
  using assms
proof (induction ls arbitrary: side)
  case Nil
  then show ?case by simp
next
  case (Cons l ls)
  show ?case
  proof (cases "l = (p, s, oid)")
    case True
    then have "oid \<notin> set (map (\<lambda>l. snd (snd l)) ls)"
      using Cons.prems(1) by simp
    then show ?thesis
      using True by (simp add: insert_levels_other convertSnapshotArray_def)
  next
    case False
    then have "(p, s, oid) \<in> set ls" and "distinct (map (\<lambda>l. snd (snd l)) ls)"
      using Cons.prems by simp_all
    then show ?thesis
      using Cons.IH by (simp add: Let_def)
  qed
qed

text \<open>
  The body of \<open>load\<close>, run with \<open>this\<close> bound to the order book, an empty queue and the
  failure counter at most 3, does merge the snapshot: each side receives the levels of the
  snapshot and the sequence is the snapshot's.
\<close>

lemma load_bound_merges:
  assumes "failCount ob \<le> 3" and "queue ob = []"
  shows "fst (load This_OrderBook data ob) = None
       \<and> book (snd (load This_OrderBook data ob))
           = \<lparr>sequence = s_sequence data,
              bids = insert_levels (levels_of (s_bids data)) (bids (book ob)),
              asks = insert_levels (levels_of (s_asks data)) (asks (book ob))\<rparr>"
  using assms by (simp add: load_def Let_def changeState_processing then_do_def)

lemma syncing_book_eq:
  "syncing_book =
     \<lparr>state = Some Syncing,
      book = \<lparr>sequence = Null, bids = Map.empty, asks = Map.empty\<rparr>,
      queue = [], socket = Some 0, failCount = 0,
      productID = ''BTC-USD'', websocketURI = ''wss://feed'', restURI = ''https://api'',
      listeners = [], sockets_made = 1,
      trace = [Log Info ''Starting connect'', Socket_new 0 ''wss://feed'',
               Log Info ''statechange: '', Emit_statechange None Open,
               Log Info ''statechange: '', Emit_statechange (Some Open) Syncing,
               Socket_send_subscribe 0 ''BTC-USD'',
               Request_get ''https://api/products/BTC-USD/book?level=3'']\<rparr>"
  by (simp add: syncing_book_def onOpen_def sync_def loadSnapshot_def changeState_def
        then_do_def perform_def emit_def Let_def new_OrderBook_def unconnected_def connect_def
        clearBook_def)

lemma load_bound_snapshot_50:
  "book (snd (load This_OrderBook snapshot_50 syncing_book))
     = \<lparr>sequence = Number 50,
        bids = [''a'' \<mapsto> \<lparr>e_price = Num 100, e_size = Num 2, e_id = ''a''\<rparr>,
                ''b'' \<mapsto> \<lparr>e_price = Num 99, e_size = Num 1, e_id = ''b''\<rparr>],
        asks = [''c'' \<mapsto> \<lparr>e_price = Num 101, e_size = Num 3, e_id = ''c''\<rparr>]\<rparr>"
proof -
  have "failCount syncing_book \<le> 3" and "queue syncing_book = []"
    by (simp_all add: syncing_book_eq)
  from load_bound_merges [OF this, of snapshot_50] show ?thesis
    by (simp add: snapshot_50_def levels_of_def convertSnapshotArray_def Let_def
          syncing_book_eq)
qed

text \<open>
  C9, the code at the claim's snapshot. When the HTTP response with status 200 and the
  snapshot of the claim arrives, the callback calls \<open>load\<close> as a plain function, so
  \<open>this.book\<close> is read on something that is not the order book: a \<open>TypeError\<close> is raised
  and the store is what it was, with no sequence and both sides empty, whatever \<open>this\<close>
  the callback itself was given.
\<close>

theorem snapshot_50_not_merged:
  "loadSnapshot_callback this (Http_response 200 snapshot_50) syncing_book
     = (Some TypeError, syncing_book)
   \<and> book syncing_book = \<lparr>sequence = Null, bids = Map.empty, asks = Map.empty\<rparr>"
  by (simp add: loadSnapshot_callback_def load_def syncing_book_eq)

text \<open>
  C6, the code on a message that arrives before the snapshot. In the \<open>Syncing\<close> state
  \<open>onMessage\<close> stores the parsed message alone: the result is the same for the receipt
  times 1000 and 2000. The replay loop of \<open>load\<close>, run with \<open>this\<close> bound, hands
  \<open>processMessage\<close> the index of the message in the queue, and the event is emitted with
  that index 0 in place of a time. As the callback calls \<open>load\<close>, the loop is not reached
  and the queued message is not emitted at all. The live path, in the \<open>Processing\<close>
  state, does emit the event with the receipt time.
\<close>

theorem replayed_event_has_no_receipt_time:
  "onMessage 1000 (msg_at 51) syncing_book = onMessage 2000 (msg_at 51) syncing_book
   \<and> queue (snd (onMessage 1000 (msg_at 51) syncing_book)) = [msg_at 51]
   \<and> trace (snd (load This_OrderBook snapshot_50 (snd (onMessage 1000 (msg_at 51) syncing_book))))
       = trace syncing_book @
         [Log Info ''statechange: '', Emit_statechange (Some Syncing) Processing,
          Emit ''received'' \<lparr>ts_data = msg_at 51, ts_time = Index 0\<rparr>]
   \<and> trace (snd (loadSnapshot_callback this (Http_response 200 snapshot_50)
                    (snd (onMessage 1000 (msg_at 51) syncing_book))))
       = trace syncing_book
   \<and> trace (snd (onMessage 1000 (msg_at 51) (book_at 50)))
       = trace (book_at 50) @
         [Emit ''received'' \<lparr>ts_data = msg_at 51, ts_time = Date 1000\<rparr>]"
proof -
  have q: "onMessage 1000 (msg_at 51) syncing_book = (None, syncing_book\<lparr>queue := [msg_at 51]\<rparr>)"
    "onMessage 2000 (msg_at 51) syncing_book = (None, syncing_book\<lparr>queue := [msg_at 51]\<rparr>)"
    by (simp_all add: onMessage_def syncing_book_eq)
  have replayed: "trace (snd (load This_OrderBook snapshot_50 (syncing_book\<lparr>queue := [msg_at 51]\<rparr>)))
       = trace syncing_book @
         [Log Info ''statechange: '', Emit_statechange (Some Syncing) Processing,
          Emit ''received'' \<lparr>ts_data = msg_at 51, ts_time = Index 0\<rparr>]"
    by (simp add: load_def Let_def changeState_processing then_do_def
          processMessage_def perform_def emit_def js_le_def js_ne_def js_plus_one_def
          js_add_one_def to_number_def snapshot_50_def msg_at_def syncing_book_eq)
  have called: "trace (snd (loadSnapshot_callback this (Http_response 200 snapshot_50)
                              (syncing_book\<lparr>queue := [msg_at 51]\<rparr>)))
                  = trace syncing_book"
    by (simp add: loadSnapshot_callback_def load_def)
  have live: "trace (snd (onMessage 1000 (msg_at 51) (book_at 50)))
       = trace (book_at 50) @
         [Emit ''received'' \<lparr>ts_data = msg_at 51, ts_time = Date 1000\<rparr>]"
    by (simp add: onMessage_def book_at_fields processMessage_def then_do_def perform_def
          emit_def js_le_def js_ne_def js_plus_one_def js_add_one_def to_number_def msg_at_def)
  show ?thesis
    using replayed called live by (simp add: q)
qed

end
